theory Spec2Isabelle
  imports Main
begin

section \<open>The connection pool of v2/pool.go\<close>

text \<open>
  The file pool.go holds two implementations of the interface \<open>pool\<close>:
  \<open>connPool\<close> (the bounded pool) and \<open>singleConnPool\<close> (the adapter that pins one
  connection). Both are embedded here as functions on explicit state.

  \<^item> A \<open>*conn\<close> is a pointer: \<open>None\<close> is \<open>nil\<close>, \<open>Some a\<close> the address \<open>a\<close> of a
    \<open>conn\<close> object in the store \<open>heap\<close>. \<open>Put\<close> writes \<open>UsedAt\<close> through the pointer,
    so two idle entries holding the same pointer see the same time stamp.
  \<^item> A \<open>net.Conn\<close> is an opaque transport, named by a number.
  \<^item> \<open>time.Time\<close> and \<open>time.Duration\<close> are counts of nanoseconds (\<open>int\<close>); the zero
    \<open>time.Time\<close> is \<open>0\<close>. Every call that reads the clock takes the reading \<open>now\<close> as
    an argument.
  \<^item> \<open>size\<close> and \<open>maxSize\<close> are Go \<open>int\<close>s, taken as \<open>int\<close>: the counts of the
    properties below stay far from the ends of the machine range.
  \<^item> The calls that leave the pool (the hook \<open>dial\<close>, the hook \<open>close\<close>, the transport's
    own \<open>Close\<close>, and \<open>cond.Signal\<close>) are recorded, in order, in the list \<open>events\<close>.
    What a hook returns may depend on everything that happened before: a hook is a
    function of the events recorded so far.
  \<^item> A call either returns, panics, or (only \<open>connPool.Get\<close>) is parked in \<open>cond.Wait\<close>.
    All of \<open>connPool\<close>'s state is read and written under the mutex \<open>cond.L\<close>, and
    \<open>cond.Wait\<close> sits in a loop that tests its condition again after every wake-up, so
    a parked \<open>Get\<close> has no effect before its condition is false: it is the outcome
    \<open>Blocked\<close> with the state unchanged, and its later progress is a later call.
  \<^item> The buffered reader \<open>Rd\<close> of a \<open>conn\<close> and the methods \<open>conn.Read\<close> and
    \<open>conn.Write\<close> do input and output only; no pool operation looks at them.
\<close>

type_synonym netconn = nat
type_synonym error = string
type_synonym addr = nat
type_synonym ptr = "addr option"

record conn =
  Cn :: netconn
  UsedAt :: int
  cn_readTimeout :: int
  cn_writeTimeout :: int

datatype event = EvDial | EvCloseHook netconn | EvNetClose netconn | EvSignal

datatype 'a outcome = Blocked | Panicked string | Returned 'a

record world =
  heap :: "addr \<Rightarrow> conn"
  nextp :: addr
  events :: "event list"
  netClose :: "event list \<Rightarrow> netconn \<Rightarrow> error option"

record connPool =
  dial :: "event list \<Rightarrow> error + netconn"
  close :: "(event list \<Rightarrow> netconn \<Rightarrow> error option) option"
  conns :: "addr list"
  readTimeout :: int
  writeTimeout :: int
  size_p :: int
  maxSize :: int
  idleTimeout :: int

subsection \<open>conn\<close>

text \<open>\<open>newConn\<close> allocates a \<open>conn\<close> at a fresh address; \<open>UsedAt\<close> is the zero time.\<close>

definition newConn :: "netconn \<Rightarrow> int \<Rightarrow> int \<Rightarrow> world \<Rightarrow> addr \<times> world" where
  "newConn netcn rt wt w =
     (nextp w,
      w\<lparr>heap := (heap w)(nextp w := \<lparr>Cn = netcn, UsedAt = 0, cn_readTimeout = rt, cn_writeTimeout = wt\<rparr>),
        nextp := Suc (nextp w)\<rparr>)"

subsection \<open>time\<close>

text \<open>
  \<open>time.Since t\<close> is \<open>time.Now().Sub(t)\<close>; \<open>Sub\<close> returns the largest (smallest)
  \<open>Duration\<close>, a 64-bit count, when the difference is beyond it.
\<close>

definition maxDuration :: int where
  "maxDuration = 2 ^ 63 - 1"

definition minDuration :: int where
  "minDuration = - (2 ^ 63)"

definition Since :: "int \<Rightarrow> int \<Rightarrow> int" where
  "Since now t =
     (if maxDuration < now - t then maxDuration
      else if now - t < minDuration then minDuration
      else now - t)"

subsection \<open>connPool\<close>

definition newConnPool ::
  "(event list \<Rightarrow> error + netconn) \<Rightarrow> (event list \<Rightarrow> netconn \<Rightarrow> error option) option \<Rightarrow>
   int \<Rightarrow> int \<Rightarrow> int \<Rightarrow> int \<Rightarrow> connPool" where
  "newConnPool dial' close' maxSize' readTimeout' writeTimeout' idleTimeout' =
     \<lparr>dial = dial', close = close', conns = [], readTimeout = readTimeout',
      writeTimeout = writeTimeout', size_p = 0, maxSize = maxSize', idleTimeout = idleTimeout'\<rparr>"

text \<open>
  The sweep of \<open>Get\<close> (lines 101 to 106):
  \<^verbatim>\<open>for e := p.conns.Front(); e != nil; e = e.Next() {
      cn := e.Value.(*conn)
      if time.Since(cn.UsedAt) > p.idleTimeout { p.conns.Remove(e) }
  }\<close>
  \<open>conns\<close> is a \<open>container/list\<close> of the Go library, whose list.go has
  \<^verbatim>\<open>func (l *List) remove(e *Element) {
      e.prev.next = e.next
      e.next.prev = e.prev
      e.next = nil // avoid memory leaks
      e.prev = nil // avoid memory leaks
      e.list = nil
      l.len--
  }
  func (e *Element) Next() *Element {
      if p := e.next; e.list != nil && p != &e.list.root { return p }
      return nil
  }\<close>
  (the releases before Go 1.2 clear \<open>e.next\<close> in the same way and return it from
  \<open>Next\<close>). So the \<open>e.Next()\<close> that the loop evaluates after a \<open>Remove(e)\<close> is \<open>nil\<close>:
  the loop walks from the front over the entries that have not expired and ends
  after the first entry it removes. The entries behind that one are not visited.
\<close>

fun sweep :: "(addr \<Rightarrow> conn) \<Rightarrow> int \<Rightarrow> int \<Rightarrow> addr list \<Rightarrow> addr list" where
  "sweep h now tmo [] = []"
| "sweep h now tmo (e # rest) =
     (if tmo < Since now (UsedAt (h e)) then rest else e # sweep h now tmo rest)"

definition connPool_Get ::
  "int \<Rightarrow> connPool \<Rightarrow> world \<Rightarrow> (ptr \<times> bool \<times> error option) outcome \<times> connPool \<times> world" where
  "connPool_Get now p w =
     (if conns p = [] \<and> maxSize p \<le> size_p p then (Blocked, p, w)
      else
        let p1 = (if 0 < idleTimeout p
                  then p\<lparr>conns := sweep (heap w) now (idleTimeout p) (conns p)\<rparr>
                  else p)
        in case conns p1 of
             [] \<Rightarrow>
               (let w1 = w\<lparr>events := events w @ [EvDial]\<rparr>
                in case dial p1 (events w) of
                     Inl err \<Rightarrow> (Returned (None, False, Some err), p1, w1)
                   | Inr rw \<Rightarrow>
                       (case newConn rw (readTimeout p1) (writeTimeout p1) w1 of
                          (cn, w2) \<Rightarrow>
                            (Returned (Some cn, True, None), p1\<lparr>size_p := size_p p1 + 1\<rparr>, w2)))
           | elem # rest \<Rightarrow> (Returned (Some elem, False, None), p1\<lparr>conns := rest\<rparr>, w))"

text \<open>\<open>Put\<close> reads \<open>cn.UsedAt\<close> first: a \<open>nil\<close> argument is a nil dereference.\<close>

definition connPool_Put ::
  "int \<Rightarrow> ptr \<Rightarrow> connPool \<Rightarrow> world \<Rightarrow> error option outcome \<times> connPool \<times> world" where
  "connPool_Put now cn p w =
     (case cn of
        None \<Rightarrow> (Panicked ''invalid memory address or nil pointer dereference'', p, w)
      | Some a \<Rightarrow>
          (Returned None,
           p\<lparr>conns := a # conns p\<rparr>,
           w\<lparr>heap := (heap w)(a := (heap w a)\<lparr>UsedAt := now\<rparr>),
             events := events w @ [EvSignal]\<rparr>))"

definition closeConn :: "connPool \<Rightarrow> addr \<Rightarrow> world \<Rightarrow> error option \<times> world" where
  "closeConn p cn w =
     (case close p of
        Some f \<Rightarrow>
          (f (events w) (Cn (heap w cn)), w\<lparr>events := events w @ [EvCloseHook (Cn (heap w cn))]\<rparr>)
      | None \<Rightarrow>
          (netClose w (events w) (Cn (heap w cn)),
           w\<lparr>events := events w @ [EvNetClose (Cn (heap w cn))]\<rparr>))"

definition connPool_Remove ::
  "ptr \<Rightarrow> connPool \<Rightarrow> world \<Rightarrow> error option outcome \<times> connPool \<times> world" where
  "connPool_Remove cn p w =
     (case (case cn of None \<Rightarrow> (None, w) | Some a \<Rightarrow> closeConn p a w) of
        (err, w1) \<Rightarrow>
          (Returned err, p\<lparr>size_p := size_p p - 1\<rparr>, w1\<lparr>events := events w1 @ [EvSignal]\<rparr>))"

definition connPool_Len :: "connPool \<Rightarrow> int" where
  "connPool_Len p = int (length (conns p))"

definition connPool_Size :: "connPool \<Rightarrow> int" where
  "connPool_Size p = size_p p"

text \<open>The loop of \<open>Close\<close>: it removes nothing, so it visits every idle entry
  until a close fails.\<close>

fun closeAll :: "connPool \<Rightarrow> addr list \<Rightarrow> world \<Rightarrow> error option \<times> world" where
  "closeAll p [] w = (None, w)"
| "closeAll p (e # rest) w =
     (case closeConn p e w of
        (Some err, w1) \<Rightarrow> (Some err, w1)
      | (None, w1) \<Rightarrow> closeAll p rest w1)"

definition connPool_Close :: "connPool \<Rightarrow> world \<Rightarrow> error option outcome \<times> connPool \<times> world" where
  "connPool_Close p w =
     (case closeAll p (conns p) w of
        (Some err, w1) \<Rightarrow> (Returned (Some err), p, w1)
      | (None, w1) \<Rightarrow> (Returned None, p\<lparr>conns := [], size_p := 0\<rparr>, w1))"

subsection \<open>The interface pool and singleConnPool\<close>

text \<open>
  A \<open>singleConnPool\<close> holds its underlying pool through the interface \<open>pool\<close>, so the
  underlying pool is a \<open>connPool\<close> or again a \<open>singleConnPool\<close>. The reference is
  embedded by nesting: an operation of the adapter returns the adapter with the new
  state of the pool underneath. The read-write lock \<open>l\<close> only makes each method
  atomic. A deferred \<open>Unlock\<close> runs on a panic too, and a panic of the underlying
  pool passes through the adapter's method before the statements after the call.
\<close>

datatype pool =
  ConnPool connPool
| SingleConnPool (sc_pool: pool) (sc_cn: ptr) (sc_reusable: bool)

fun Put :: "int \<Rightarrow> ptr \<Rightarrow> pool \<Rightarrow> world \<Rightarrow> error option outcome \<times> pool \<times> world" where
  "Put now cn (ConnPool p) w =
     (case connPool_Put now cn p w of (r, p', w') \<Rightarrow> (r, ConnPool p', w'))"
| "Put now cn (SingleConnPool u held reusable) w =
     (if held \<noteq> cn then (Panicked ''p.cn != cn'', SingleConnPool u held reusable, w)
      else (Returned None, SingleConnPool u held reusable, w))"

fun Remove :: "ptr \<Rightarrow> pool \<Rightarrow> world \<Rightarrow> error option outcome \<times> pool \<times> world" where
  "Remove cn (ConnPool p) w =
     (case connPool_Remove cn p w of (r, p', w') \<Rightarrow> (r, ConnPool p', w'))"
| "Remove cn (SingleConnPool u held reusable) w =
     (if held \<noteq> cn then (Panicked ''p.cn != cn'', SingleConnPool u held reusable, w)
      else (Returned None, SingleConnPool u None reusable, w))"

fun Len :: "pool \<Rightarrow> int" where
  "Len (ConnPool p) = connPool_Len p"
| "Len (SingleConnPool u held reusable) = (if held = None then 0 else 1)"

fun Get :: "int \<Rightarrow> pool \<Rightarrow> world \<Rightarrow> (ptr \<times> bool \<times> error option) outcome \<times> pool \<times> world" where
  "Get now (ConnPool p) w =
     (case connPool_Get now p w of (r, p', w') \<Rightarrow> (r, ConnPool p', w'))"
| "Get now (SingleConnPool u held reusable) w =
     (if held \<noteq> None then (Returned (held, False, None), SingleConnPool u held reusable, w)
      else
        case Get now u w of
          (Blocked, u', w') \<Rightarrow> (Blocked, SingleConnPool u' held reusable, w')
        | (Panicked m, u', w') \<Rightarrow> (Panicked m, SingleConnPool u' held reusable, w')
        | (Returned (cn, isNew, Some err), u', w') \<Rightarrow>
            (Returned (None, False, Some err), SingleConnPool u' held reusable, w')
        | (Returned (cn, isNew, None), u', w') \<Rightarrow>
            (Returned (cn, isNew, None), SingleConnPool u' cn reusable, w'))"

fun Close :: "int \<Rightarrow> pool \<Rightarrow> world \<Rightarrow> error option outcome \<times> pool \<times> world" where
  "Close now (ConnPool p) w =
     (case connPool_Close p w of (r, p', w') \<Rightarrow> (r, ConnPool p', w'))"
| "Close now (SingleConnPool u held reusable) w =
     (if held \<noteq> None then
        (case (if reusable then Put now held u w else Remove held u w) of
           (Blocked, u', w') \<Rightarrow> (Blocked, SingleConnPool u' held reusable, w')
         | (Panicked m, u', w') \<Rightarrow> (Panicked m, SingleConnPool u' held reusable, w')
         | (Returned err, u', w') \<Rightarrow> (Returned err, SingleConnPool u' None reusable, w'))
      else (Returned None, SingleConnPool u None reusable, w))"

subsection \<open>Sequences of calls\<close>

text \<open>
  A sequence of \<open>Get\<close>, \<open>Put\<close> and \<open>Remove\<close> calls on one \<open>connPool\<close>, each call with
  the clock reading it sees. Every method body runs under the mutex, so the calls of
  several goroutines are one such sequence. \<open>run\<close> gives the states observed after each
  call. A panic ends the run: \<open>Put\<close> panics with the mutex held.
\<close>

datatype call = CallGet int | CallPut int ptr | CallRemove ptr

fun panicked :: "'a outcome \<Rightarrow> bool" where
  "panicked (Panicked m) = True"
| "panicked Blocked = False"
| "panicked (Returned r) = False"

fun call_pool :: "call \<Rightarrow> connPool \<Rightarrow> world \<Rightarrow> bool \<times> connPool \<times> world" where
  "call_pool (CallGet now) p w =
     (case connPool_Get now p w of (r, p', w') \<Rightarrow> (panicked r, p', w'))"
| "call_pool (CallPut now cn) p w =
     (case connPool_Put now cn p w of (r, p', w') \<Rightarrow> (panicked r, p', w'))"
| "call_pool (CallRemove cn) p w =
     (case connPool_Remove cn p w of (r, p', w') \<Rightarrow> (panicked r, p', w'))"

fun run :: "call list \<Rightarrow> connPool \<Rightarrow> world \<Rightarrow> (connPool \<times> world) list" where
  "run [] p w = []"
| "run (c # cs) p w =
     (case call_pool c p w of
        (stop, p', w') \<Rightarrow> (p', w') # (if stop then [] else run cs p' w'))"



text \<open>A world with no connection allocated and nothing recorded.\<close>

definition newWorld :: "(event list \<Rightarrow> netconn \<Rightarrow> error option) \<Rightarrow> world" where
  "newWorld nc =
     \<lparr>heap = (\<lambda>a. \<lparr>Cn = 0, UsedAt = 0, cn_readTimeout = 0, cn_writeTimeout = 0\<rparr>),
      nextp = 0, events = [], netClose = nc\<rparr>"

text \<open>What \<open>closeConn\<close> returns for a transport after the events \<open>hist\<close>, and the
  event it records.\<close>

definition close_result :: "connPool \<Rightarrow> world \<Rightarrow> event list \<Rightarrow> netconn \<Rightarrow> error option" where
  "close_result p w hist nc = (case close p of Some f \<Rightarrow> f hist nc | None \<Rightarrow> netClose w hist nc)"

definition close_event :: "connPool \<Rightarrow> netconn \<Rightarrow> event" where
  "close_event p nc = (case close p of Some f \<Rightarrow> EvCloseHook nc | None \<Rightarrow> EvNetClose nc)"

text \<open>The transports of the idle connections, front first, and the events recorded
  once the first \<open>k\<close> of them have been closed.\<close>

definition idle_transports :: "connPool \<Rightarrow> world \<Rightarrow> netconn list" where
  "idle_transports p w = map (\<lambda>a. Cn (heap w a)) (conns p)"

definition closed_upto :: "connPool \<Rightarrow> world \<Rightarrow> nat \<Rightarrow> event list" where
  "closed_upto p w k = events w @ map (close_event p) (take k (idle_transports p w))"

subsection \<open>Concrete hooks and states\<close>

text \<open>Hooks and states at which the properties below are evaluated: a \<open>dial\<close> that
  always succeeds with a new transport, a close that always succeeds, a close that
  fails on one transport, and a pool with three idle connections \<open>0\<close>, \<open>1\<close>, \<open>2\<close> whose
  transports are \<open>10\<close>, \<open>11\<close>, \<open>12\<close>.\<close>

definition dial_fresh :: "event list \<Rightarrow> error + netconn" where
  "dial_fresh hist = Inr (length hist)"

definition close_ok :: "event list \<Rightarrow> netconn \<Rightarrow> error option" where
  "close_ok hist nc = None"

definition close_fails_on :: "netconn \<Rightarrow> event list \<Rightarrow> netconn \<Rightarrow> error option" where
  "close_fails_on bad hist nc = (if nc = bad then Some ''close failed'' else None)"

definition idle_world :: world where
  "idle_world =
     \<lparr>heap = (\<lambda>a. \<lparr>Cn = 10 + a, UsedAt = 0, cn_readTimeout = 0, cn_writeTimeout = 0\<rparr>),
      nextp = 3, events = [], netClose = close_ok\<rparr>"

definition idle_pool :: "(event list \<Rightarrow> netconn \<Rightarrow> error option) option \<Rightarrow> connPool" where
  "idle_pool cl =
     \<lparr>dial = dial_fresh, close = cl, conns = [0, 1, 2], readTimeout = 0, writeTimeout = 0,
      size_p = 3, maxSize = 3, idleTimeout = 0\<rparr>"

section \<open>Properties\<close>

subsection \<open>Helper facts\<close>

lemma closeConn_eq:
  "closeConn p a w =
     (close_result p w (events w) (Cn (heap w a)),
      w\<lparr>events := events w @ [close_event p (Cn (heap w a))]\<rparr>)"
  by (simp add: closeConn_def close_result_def close_event_def split: option.split)

subsection \<open>Remove\<close>

text \<open>
  C4. \<open>connPool.Remove\<close> of a connection \<open>cn\<close> (not \<open>nil\<close>) closes the transport of \<open>cn\<close>
  first, then decrements \<open>size\<close> and signals once; it does so whatever the close
  returns, and it returns what the close returned.
\<close>

theorem Remove_frees_slot_and_returns_close_error:
  "connPool_Remove (Some a) p w =
     (Returned (close_result p w (events w) (Cn (heap w a))),
      p\<lparr>size_p := size_p p - 1\<rparr>,
      w\<lparr>events := events w @ [close_event p (Cn (heap w a)), EvSignal]\<rparr>)"
  by (simp add: connPool_Remove_def closeConn_eq)

text \<open>
  C10. \<open>connPool.Remove\<close> decrements \<open>size\<close> for every argument and every pool: no test
  of where the argument came from or of whether it is checked out. A \<open>nil\<close> argument
  closes nothing and still decrements and signals. There is no lower bound: from
  \<open>size = 0\<close> the result is \<open>size = -1\<close>.
\<close>

theorem Remove_decrements_unconditionally:
  "size_p (fst (snd (connPool_Remove cn p w))) = size_p p - 1 \<and>
   connPool_Remove None p w =
     (Returned None, p\<lparr>size_p := size_p p - 1\<rparr>, w\<lparr>events := events w @ [EvSignal]\<rparr>) \<and>
   size_p (fst (snd (connPool_Remove cn (p\<lparr>size_p := 0\<rparr>) w))) = - 1"
  by (simp add: connPool_Remove_def split: option.split prod.split)

subsection \<open>singleConnPool\<close>

text \<open>
  C8. A \<open>singleConnPool\<close> that holds a connection \<open>c\<close> returns \<open>c\<close> from \<open>Get\<close> with
  \<open>isNew = false\<close> and no error, and leaves the adapter, the pool underneath and the
  world as they were (the underlying \<open>Get\<close> is not called: nothing is dialled, nothing
  is taken from the idle list). This holds for every pool underneath, also one whose
  own \<open>Get\<close> would block or fail. So the next \<open>Get\<close> does the same.
\<close>

theorem singleConnPool_Get_held:
  "Get now (SingleConnPool u (Some c) reusable) w =
     (Returned (Some c, False, None), SingleConnPool u (Some c) reusable, w) \<and>
   (case Get now (SingleConnPool u (Some c) reusable) w of
      (r, P, w') \<Rightarrow> Get now' P w' =
        (Returned (Some c, False, None), SingleConnPool u (Some c) reusable, w))"
  by simp

text \<open>
  C5. \<open>singleConnPool.Put\<close> and \<open>singleConnPool.Remove\<close> with a pointer other than the
  held one panic (no error is returned, nothing changes). With the held pointer, \<open>Put\<close>
  returns \<open>nil\<close> and changes nothing, the pool underneath included, and \<open>Remove\<close>
  returns \<open>nil\<close> and clears the held pointer.
\<close>

theorem singleConnPool_Put_Remove_identity:
  "(held \<noteq> cn \<longrightarrow>
      Put now cn (SingleConnPool u held reusable) w =
        (Panicked ''p.cn != cn'', SingleConnPool u held reusable, w) \<and>
      Remove cn (SingleConnPool u held reusable) w =
        (Panicked ''p.cn != cn'', SingleConnPool u held reusable, w)) \<and>
   (held = cn \<longrightarrow>
      Put now cn (SingleConnPool u held reusable) w =
        (Returned None, SingleConnPool u held reusable, w) \<and>
      Remove cn (SingleConnPool u held reusable) w =
        (Returned None, SingleConnPool u None reusable, w))"
  by simp

theorem singleConnPool_Put_Remove_identity_witness:
  "Some (0::nat) \<noteq> Some 1 \<and>
   Put 7 (Some 1) (SingleConnPool (ConnPool (idle_pool None)) (Some 0) True) idle_world =
     (Panicked ''p.cn != cn'', SingleConnPool (ConnPool (idle_pool None)) (Some 0) True, idle_world) \<and>
   Remove (Some 1) (SingleConnPool (ConnPool (idle_pool None)) (Some 0) True) idle_world =
     (Panicked ''p.cn != cn'', SingleConnPool (ConnPool (idle_pool None)) (Some 0) True, idle_world) \<and>
   Put 7 (Some 0) (SingleConnPool (ConnPool (idle_pool None)) (Some 0) True) idle_world =
     (Returned None, SingleConnPool (ConnPool (idle_pool None)) (Some 0) True, idle_world) \<and>
   Remove (Some 0) (SingleConnPool (ConnPool (idle_pool None)) (Some 0) True) idle_world =
     (Returned None, SingleConnPool (ConnPool (idle_pool None)) None True, idle_world)"
  using singleConnPool_Put_Remove_identity
          [of "Some 0" "Some 1" 7 "ConnPool (idle_pool None)" True idle_world]
        singleConnPool_Put_Remove_identity
          [of "Some 0" "Some 0" 7 "ConnPool (idle_pool None)" True idle_world]
  by simp

text \<open>
  C6. \<open>singleConnPool.Close\<close> with a connection \<open>a\<close> held returns what the call on the
  pool underneath returns: \<open>Put\<close> when \<open>reusable\<close>, \<open>Remove\<close> when not. Over a
  \<open>connPool\<close>: with \<open>reusable = true\<close> the connection becomes the front of the idle list
  (\<open>Len\<close> grows by one, \<open>size\<close> stays); with \<open>reusable = false\<close> its transport is closed
  and \<open>size\<close> drops by one (the idle list stays); in both cases the held pointer is
  cleared. With nothing held \<open>Close\<close> returns \<open>nil\<close> and changes nothing.
\<close>

theorem singleConnPool_Close_releases:
  "fst (Close now (SingleConnPool u (Some a) reusable) w) =
     fst (if reusable then Put now (Some a) u w else Remove (Some a) u w) \<and>
   Close now (SingleConnPool (ConnPool cp) (Some a) True) w =
     (Returned None,
      SingleConnPool (ConnPool (cp\<lparr>conns := a # conns cp\<rparr>)) None True,
      w\<lparr>heap := (heap w)(a := (heap w a)\<lparr>UsedAt := now\<rparr>), events := events w @ [EvSignal]\<rparr>) \<and>
   Len (ConnPool (cp\<lparr>conns := a # conns cp\<rparr>)) = Len (ConnPool cp) + 1 \<and>
   Close now (SingleConnPool (ConnPool cp) (Some a) False) w =
     (Returned (close_result cp w (events w) (Cn (heap w a))),
      SingleConnPool (ConnPool (cp\<lparr>size_p := size_p cp - 1\<rparr>)) None False,
      w\<lparr>events := events w @ [close_event cp (Cn (heap w a)), EvSignal]\<rparr>) \<and>
   Close now (SingleConnPool u None reusable) w =
     (Returned None, SingleConnPool u None reusable, w)"
  by (auto simp: connPool_Put_def connPool_Remove_def closeConn_eq connPool_Len_def
           split: prod.splits outcome.splits)

subsection \<open>Close\<close>

text \<open>The loop of \<open>Close\<close> when the close of entry \<open>k\<close> is the first to fail, and when
  none fails. The store is not written by a close, so the transports are read in
  the world the loop starts in.\<close>

lemma close_result_events:
  "close_result p (w\<lparr>events := evs\<rparr>) hist nc = close_result p w hist nc"
  by (simp add: close_result_def split: option.split)

lemma closeAll_fail:
  "k < length as \<Longrightarrow>
   (\<forall>j<k. close_result p w
             (events w @ map (close_event p) (take j (map (\<lambda>a. Cn (heap w a)) as)))
             (Cn (heap w (as ! j))) = None) \<Longrightarrow>
   close_result p w
     (events w @ map (close_event p) (take k (map (\<lambda>a. Cn (heap w a)) as)))
     (Cn (heap w (as ! k))) = Some err \<Longrightarrow>
   closeAll p as w =
     (Some err,
      w\<lparr>events := events w @ map (close_event p) (take (Suc k) (map (\<lambda>a. Cn (heap w a)) as))\<rparr>)"
proof (induction as arbitrary: w k)
  case Nil
  then show ?case by simp
next
  case (Cons a as)
  show ?case
  proof (cases k)
    case 0
    with Cons.prems show ?thesis by (simp add: closeConn_eq)
  next
    case (Suc k')
    let ?w1 = "w\<lparr>events := events w @ [close_event p (Cn (heap w a))]\<rparr>"
    from Cons.prems(2) Suc have first_ok: "close_result p w (events w) (Cn (heap w a)) = None"
      by (auto dest: spec[of _ 0])
    have in_range: "k' < length as"
      using Cons.prems(1) Suc by simp
    have before_ok:
      "\<forall>j<k'. close_result p ?w1
                 (events ?w1 @ map (close_event p) (take j (map (\<lambda>a. Cn (heap ?w1 a)) as)))
                 (Cn (heap ?w1 (as ! j))) = None"
    proof (intro allI impI)
      fix j
      assume "j < k'"
      then have "Suc j < k" using Suc by simp
      from Cons.prems(2)[rule_format, OF this]
      show "close_result p ?w1
              (events ?w1 @ map (close_event p) (take j (map (\<lambda>a. Cn (heap ?w1 a)) as)))
              (Cn (heap ?w1 (as ! j))) = None"
        by (simp add: close_result_events)
    qed
    have fails:
      "close_result p ?w1
         (events ?w1 @ map (close_event p) (take k' (map (\<lambda>a. Cn (heap ?w1 a)) as)))
         (Cn (heap ?w1 (as ! k'))) = Some err"
      using Cons.prems(3) Suc by (simp add: close_result_events)
    from Cons.IH[OF in_range before_ok fails] first_ok Suc show ?thesis
      by (simp add: closeConn_eq)
  qed
qed

lemma closeAll_ok:
  "(\<forall>j<length as. close_result p w
             (events w @ map (close_event p) (take j (map (\<lambda>a. Cn (heap w a)) as)))
             (Cn (heap w (as ! j))) = None) \<Longrightarrow>
   closeAll p as w =
     (None, w\<lparr>events := events w @ map (close_event p) (map (\<lambda>a. Cn (heap w a)) as)\<rparr>)"
proof (induction as arbitrary: w)
  case Nil
  then show ?case by simp
next
  case (Cons a as)
  let ?w1 = "w\<lparr>events := events w @ [close_event p (Cn (heap w a))]\<rparr>"
  from Cons.prems have first_ok: "close_result p w (events w) (Cn (heap w a)) = None"
    by (auto dest: spec[of _ 0])
  have rest_ok:
    "\<forall>j<length as. close_result p ?w1
               (events ?w1 @ map (close_event p) (take j (map (\<lambda>a. Cn (heap ?w1 a)) as)))
               (Cn (heap ?w1 (as ! j))) = None"
  proof (intro allI impI)
    fix j
    assume "j < length as"
    then have "Suc j < length (a # as)" by simp
    from Cons.prems[rule_format, OF this]
    show "close_result p ?w1
            (events ?w1 @ map (close_event p) (take j (map (\<lambda>a. Cn (heap ?w1 a)) as)))
            (Cn (heap ?w1 (as ! j))) = None"
      by (simp add: close_result_events)
  qed
  from Cons.IH[OF rest_ok] first_ok show ?case
    by (simp add: closeConn_eq)
qed

text \<open>
  C3. \<open>connPool.Close\<close> closes the idle connections from the front. If the close of
  entry \<open>k\<close> is the first that fails, \<open>Close\<close> returns that error, exactly the entries
  \<open>0\<close> to \<open>k\<close> have been closed (the others not), and the pool is as it was: idle list
  and \<open>size\<close> are not reset. If every close succeeds, \<open>Close\<close> returns \<open>nil\<close>, every idle
  connection has been closed in order, and afterwards \<open>Len() = 0\<close> and \<open>size = 0\<close>.
\<close>

theorem Close_first_failure_or_reset:
  "(k < length (conns p) \<and>
    (\<forall>j<k. close_result p w (closed_upto p w j) (idle_transports p w ! j) = None) \<and>
    close_result p w (closed_upto p w k) (idle_transports p w ! k) = Some err
    \<longrightarrow> connPool_Close p w = (Returned (Some err), p, w\<lparr>events := closed_upto p w (Suc k)\<rparr>))
   \<and>
   ((\<forall>j<length (conns p). close_result p w (closed_upto p w j) (idle_transports p w ! j) = None)
    \<longrightarrow> connPool_Close p w =
          (Returned None, p\<lparr>conns := [], size_p := 0\<rparr>,
           w\<lparr>events := closed_upto p w (length (conns p))\<rparr>)
        \<and> connPool_Len (fst (snd (connPool_Close p w))) = 0
        \<and> size_p (fst (snd (connPool_Close p w))) = 0)"
proof -
  have fails: "connPool_Close p w = (Returned (Some err), p, w\<lparr>events := closed_upto p w (Suc k)\<rparr>)"
    if h: "k < length (conns p) \<and>
      (\<forall>j<k. close_result p w (closed_upto p w j) (idle_transports p w ! j) = None) \<and>
      close_result p w (closed_upto p w k) (idle_transports p w ! k) = Some err"
  proof -
    from h have "closeAll p (conns p) w = (Some err, w\<lparr>events := closed_upto p w (Suc k)\<rparr>)"
      unfolding closed_upto_def idle_transports_def
      by (intro closeAll_fail) auto
    then show ?thesis by (simp add: connPool_Close_def)
  qed
  have succeeds: "connPool_Close p w =
          (Returned None, p\<lparr>conns := [], size_p := 0\<rparr>,
           w\<lparr>events := closed_upto p w (length (conns p))\<rparr>)"
    if h: "\<forall>j<length (conns p). close_result p w (closed_upto p w j) (idle_transports p w ! j) = None"
  proof -
    from h have "closeAll p (conns p) w = (None, w\<lparr>events := closed_upto p w (length (conns p))\<rparr>)"
      unfolding closed_upto_def idle_transports_def
      using closeAll_ok[of "conns p" p w] by auto
    then show ?thesis by (simp add: connPool_Close_def)
  qed
  from fails succeeds show ?thesis
    by (simp add: connPool_Len_def)
qed

theorem Close_first_failure_or_reset_witness:
  "connPool_Close (idle_pool (Some (close_fails_on 11))) idle_world =
     (Returned (Some ''close failed''), idle_pool (Some (close_fails_on 11)),
      idle_world\<lparr>events := [EvCloseHook 10, EvCloseHook 11]\<rparr>) \<and>
   connPool_Close (idle_pool None) idle_world =
     (Returned None, (idle_pool None)\<lparr>conns := [], size_p := 0\<rparr>,
      idle_world\<lparr>events := [EvNetClose 10, EvNetClose 11, EvNetClose 12]\<rparr>)"
proof -
  have a: "(1::nat) < length (conns (idle_pool (Some (close_fails_on 11)))) \<and>
    (\<forall>j<1. close_result (idle_pool (Some (close_fails_on 11))) idle_world
               (closed_upto (idle_pool (Some (close_fails_on 11))) idle_world j)
               (idle_transports (idle_pool (Some (close_fails_on 11))) idle_world ! j) = None) \<and>
    close_result (idle_pool (Some (close_fails_on 11))) idle_world
               (closed_upto (idle_pool (Some (close_fails_on 11))) idle_world 1)
               (idle_transports (idle_pool (Some (close_fails_on 11))) idle_world ! 1)
      = Some ''close failed''"
    by (simp add: idle_pool_def idle_world_def close_result_def close_fails_on_def
                  idle_transports_def closed_upto_def)
  have b: "\<forall>j<length (conns (idle_pool None)). close_result (idle_pool None) idle_world
               (closed_upto (idle_pool None) idle_world j)
               (idle_transports (idle_pool None) idle_world ! j) = None"
    by (simp add: idle_pool_def idle_world_def close_result_def close_ok_def)
  from a b
    Close_first_failure_or_reset
      [of 1 "idle_pool (Some (close_fails_on 11))" idle_world "''close failed''"]
    Close_first_failure_or_reset [of 0 "idle_pool None" idle_world "''x''"]
  show ?thesis
    by (simp add: idle_pool_def idle_world_def closed_upto_def idle_transports_def
                  close_event_def)
qed

subsection \<open>Put, then Get\<close>

text \<open>
  C7. With the idle list empty, \<open>Put(A)\<close> at time \<open>now1\<close> followed by \<open>Get()\<close> at time
  \<open>now2\<close>, where the idle time of \<open>A\<close> does not exceed \<open>idleTimeout\<close> (or no idle
  timeout is set): \<open>Get\<close> returns \<open>A\<close> with \<open>isNew = false\<close> and no error, and leaves
  the world as \<open>Put\<close> left it, so \<open>dial\<close> is not called.
\<close>

theorem Put_then_Get_reuses:
  assumes "conns p = []"
    and "idleTimeout p \<le> 0 \<or> Since now2 now1 \<le> idleTimeout p"
  shows "connPool_Put now1 (Some a) p w =
           (Returned None, p\<lparr>conns := [a]\<rparr>,
            w\<lparr>heap := (heap w)(a := (heap w a)\<lparr>UsedAt := now1\<rparr>),
              events := events w @ [EvSignal]\<rparr>) \<and>
         connPool_Get now2 (p\<lparr>conns := [a]\<rparr>)
            (w\<lparr>heap := (heap w)(a := (heap w a)\<lparr>UsedAt := now1\<rparr>),
              events := events w @ [EvSignal]\<rparr>) =
           (Returned (Some a, False, None), p,
            w\<lparr>heap := (heap w)(a := (heap w a)\<lparr>UsedAt := now1\<rparr>),
              events := events w @ [EvSignal]\<rparr>)"
  using assms by (auto simp: connPool_Put_def connPool_Get_def)

theorem Put_then_Get_reuses_witness:
  "conns (newConnPool dial_fresh None 1 0 0 5) = [] \<and>
   Since 12 10 \<le> idleTimeout (newConnPool dial_fresh None 1 0 0 5) \<and>
   connPool_Get 12 ((newConnPool dial_fresh None 1 0 0 5)\<lparr>conns := [0]\<rparr>)
      (idle_world\<lparr>heap := (heap idle_world)(0 := (heap idle_world 0)\<lparr>UsedAt := 10\<rparr>),
                  events := events idle_world @ [EvSignal]\<rparr>) =
     (Returned (Some 0, False, None), newConnPool dial_fresh None 1 0 0 5,
      idle_world\<lparr>heap := (heap idle_world)(0 := (heap idle_world 0)\<lparr>UsedAt := 10\<rparr>),
                  events := events idle_world @ [EvSignal]\<rparr>)"
proof -
  have empty: "conns (newConnPool dial_fresh None 1 0 0 5) = []"
    by (simp add: newConnPool_def)
  have fresh: "Since 12 10 \<le> idleTimeout (newConnPool dial_fresh None 1 0 0 5)"
    by (simp add: newConnPool_def Since_def maxDuration_def minDuration_def)
  from fresh have cond: "idleTimeout (newConnPool dial_fresh None 1 0 0 5) \<le> 0 \<or>
      Since 12 10 \<le> idleTimeout (newConnPool dial_fresh None 1 0 0 5)"
    by simp
  from Put_then_Get_reuses [OF empty cond, of 0 idle_world] empty fresh
  show ?thesis by simp
qed

subsection \<open>The idle sweep\<close>

text \<open>The sweep drops the first expired entry, counted from the front, and nothing
  else; an entry that has not expired stays.\<close>

lemma sweep_first_expired:
  "sweep h now tmo xs =
     takeWhile (\<lambda>e. \<not> tmo < Since now (UsedAt (h e))) xs @
     tl (dropWhile (\<lambda>e. \<not> tmo < Since now (UsedAt (h e))) xs)"
  by (induction xs) auto

lemma sweep_keeps_unexpired:
  "e \<in> set xs \<Longrightarrow> \<not> tmo < Since now (UsedAt (h e)) \<Longrightarrow> e \<in> set (sweep h now tmo xs)"
  by (induction xs) auto


text \<open>
  C2. One \<open>Get\<close> does not remove every expired entry. A pool with \<open>maxSize = 3\<close> and
  \<open>idleTimeout = 1\<close> dials three connections \<open>0\<close>, \<open>1\<close>, \<open>2\<close> and gets them back at time
  \<open>0\<close>: the idle list is \<open>[2, 1, 0]\<close>. At time \<open>10\<close> all three have expired. The sweep
  of the next \<open>Get\<close> removes \<open>2\<close> and ends; \<open>Get\<close> then pops and returns the expired
  \<open>1\<close>, and the expired \<open>0\<close> is still in the idle list.
\<close>

theorem Get_sweep_leaves_expired:
  "fst (connPool_Get 10
          (fst (last (run [CallGet 0, CallGet 0, CallGet 0,
                           CallPut 0 (Some 0), CallPut 0 (Some 1), CallPut 0 (Some 2)]
                        (newConnPool dial_fresh None 3 0 0 1) (newWorld close_ok))))
          (snd (last (run [CallGet 0, CallGet 0, CallGet 0,
                           CallPut 0 (Some 0), CallPut 0 (Some 1), CallPut 0 (Some 2)]
                        (newConnPool dial_fresh None 3 0 0 1) (newWorld close_ok)))))
     = Returned (Some 1, False, None) \<and>
   conns (fst (last (run [CallGet 0, CallGet 0, CallGet 0,
                          CallPut 0 (Some 0), CallPut 0 (Some 1), CallPut 0 (Some 2),
                          CallGet 10]
                       (newConnPool dial_fresh None 3 0 0 1) (newWorld close_ok)))) = [0] \<and>
   idleTimeout (newConnPool dial_fresh None 3 0 0 1)
     < Since 10 (UsedAt (heap (snd (last (run [CallGet 0, CallGet 0, CallGet 0,
                          CallPut 0 (Some 0), CallPut 0 (Some 1), CallPut 0 (Some 2),
                          CallGet 10]
                       (newConnPool dial_fresh None 3 0 0 1) (newWorld close_ok)))) 0))"
  by code_simp

subsection \<open>The bound on size\<close>

text \<open>Without an idle timeout the bound holds: \<open>Get\<close> dials only from an empty idle
  list, where the wait loop has seen \<open>size < maxSize\<close>.\<close>

lemma step_size_le_maxSize:
  assumes "size_p p \<le> maxSize p" and "idleTimeout p \<le> 0"
    and "call_pool c p w = (stop, p', w')"
  shows "size_p p' \<le> maxSize p' \<and> idleTimeout p' \<le> 0"
proof (cases c)
  case (CallGet now)
  with assms show ?thesis
    by (auto simp: connPool_Get_def newConn_def Let_def split: if_splits list.splits sum.splits)
next
  case (CallPut now cn)
  with assms show ?thesis
    by (auto simp: connPool_Put_def split: option.splits)
next
  case (CallRemove cn)
  with assms show ?thesis
    by (auto simp: connPool_Remove_def split: option.splits prod.splits)
qed

lemma size_le_maxSize_without_idleTimeout:
  "size_p p \<le> maxSize p \<Longrightarrow> idleTimeout p \<le> 0 \<Longrightarrow> (p', w') \<in> set (run cs p w) \<Longrightarrow>
   size_p p' \<le> maxSize p'"
proof (induction cs arbitrary: p w)
  case Nil
  then show ?case by simp
next
  case (Cons c cs)
  obtain stop p1 w1 where st: "call_pool c p w = (stop, p1, w1)"
    by (cases "call_pool c p w") auto
  from Cons.prems(1,2) st have inv1: "size_p p1 \<le> maxSize p1 \<and> idleTimeout p1 \<le> 0"
    by (rule step_size_le_maxSize)
  from Cons.prems(3) st
  have "(p', w') = (p1, w1) \<or> (p', w') \<in> set (run cs p1 w1)"
    by (auto split: if_splits)
  then show ?case
  proof
    assume "(p', w') = (p1, w1)"
    with inv1 show ?thesis by simp
  next
    assume "(p', w') \<in> set (run cs p1 w1)"
    with inv1 show ?thesis by (auto intro: Cons.IH)
  qed
qed

text \<open>
  C1. With an idle timeout the bound fails. A fresh pool with \<open>maxSize = 1\<close> and
  \<open>idleTimeout = 1\<close>: \<open>Get\<close> dials connection \<open>0\<close> (\<open>size = 1\<close>), \<open>Put\<close> gives it back
  at time \<open>0\<close>, and \<open>Get\<close> at time \<open>5\<close> passes the wait loop (the idle list is not
  empty), sweeps the expired entry out without touching \<open>size\<close>, finds the idle list
  empty and dials: \<open>size = 2\<close>, above \<open>maxSize = 1\<close>.
\<close>

theorem Get_after_sweep_exceeds_maxSize:
  "size_p (fst (last (run [CallGet 0, CallPut 0 (Some 0), CallGet 5]
                     (newConnPool dial_fresh None 1 0 0 1) (newWorld close_ok)))) = 2 \<and>
   maxSize (fst (last (run [CallGet 0, CallPut 0 (Some 0), CallGet 5]
                     (newConnPool dial_fresh None 1 0 0 1) (newWorld close_ok)))) = 1"
  by code_simp

subsection \<open>Idle list and size\<close>







end
